theory Spec2Isabelle
  imports Main
begin

section \<open>Values exchanged with the ledger collaborator\<close>

text \<open>
  The ledger client (\<^verbatim>\<open>@c7/ledger/lite\<close>) is an external collaborator. Its events are
  modelled by the fields the hooks read: a create event carries a contract id and a
  payload, an archive event carries the contract id (field \<^verbatim>\<open>contractId\<close> in the source,
  selector \<open>archivedId\<close> here since two datatypes cannot share a selector name).
\<close>

datatype 'a CreateEvent = CreateEvent (contractId: string) (payload: 'a)

datatype ArchiveEvent = ArchiveEvent (archivedId: string)

text \<open>
  The published error has the type \<^verbatim>\<open>CantonError | string | null\<close>. The multi-stream
  hook publishes \<^verbatim>\<open>err.cause\<close>, so a \<open>CantonError\<close> carries a cause of that same type.
\<close>

datatype CantonError = CantonError (code: string) (cause: "ErrorInfo option")
  and ErrorInfo = Canton CantonError | Message string

text \<open>
  A value caught by \<^verbatim>\<open>catch (err: unknown)\<close>: an instance of \<^verbatim>\<open>Error\<close> with its
  name and message, or anything else.
\<close>

datatype thrown = ErrorObject (name: string) (message: string) | NotAnError

text \<open>What a call of the hooks' code can throw.\<close>

datatype js_error = MisuseError string | TypeError

text \<open>The four event classes a stream handle emits.\<close>

datatype 'a stream_event =
    Create "'a CreateEvent"
  | Archive ArchiveEvent
  | Failure CantonError
  | StateChange string

fun event_class :: "'a stream_event \<Rightarrow> string" where
  "event_class (Create _) = ''create''"
| "event_class (Archive _) = ''archive''"
| "event_class (Failure _) = ''error''"
| "event_class (StateChange _) = ''state''"


section \<open>The JavaScript Map of contracts\<close>

text \<open>
  A JavaScript \<^verbatim>\<open>Map\<close> iterates in insertion order and holds each key once. It is
  modelled as an association list in iteration order. \<^verbatim>\<open>Map.prototype.set\<close> overwrites
  the value of a present key where it stands and appends an absent key;
  \<^verbatim>\<open>Map.prototype.delete\<close> removes what is stored under the key, if anything.
\<close>

type_synonym ('k, 'v) js_map = "('k \<times> 'v) list"

fun map_set :: "'k \<Rightarrow> 'v \<Rightarrow> ('k, 'v) js_map \<Rightarrow> ('k, 'v) js_map" where
  "map_set k v [] = [(k, v)]"
| "map_set k v (p # m) = (if fst p = k then (k, v) # m else p # map_set k v m)"

fun map_delete :: "'k \<Rightarrow> ('k, 'v) js_map \<Rightarrow> ('k, 'v) js_map" where
  "map_delete k [] = []"
| "map_delete k (p # m) = (if fst p = k then map_delete k m else p # map_delete k m)"

definition map_keys :: "('k, 'v) js_map \<Rightarrow> 'k list" where
  "map_keys m = map fst m"

definition map_get :: "('k, 'v) js_map \<Rightarrow> 'k \<Rightarrow> 'v option" where
  "map_get m k = map_of m k"

text \<open>
  The two state updaters of \<^verbatim>\<open>useStreamQuery\<close>:
  \<^verbatim>\<open>prevMap => new Map(prevMap).set(event.contractId, event)\<close> and
  \<^verbatim>\<open>prevMap => { const newMap = new Map(prevMap); newMap.delete(event.contractId); return newMap }\<close>.
\<close>

definition create_updater ::
  "'a CreateEvent \<Rightarrow> (string, 'a CreateEvent) js_map \<Rightarrow> (string, 'a CreateEvent) js_map" where
  "create_updater event prevMap = map_set (contractId event) event prevMap"

definition archive_updater ::
  "ArchiveEvent \<Rightarrow> (string, 'a CreateEvent) js_map \<Rightarrow> (string, 'a CreateEvent) js_map" where
  "archive_updater event prevMap = map_delete (archivedId event) prevMap"


section \<open>State of a streaming hook\<close>

text \<open>
  The React state variables and refs shared by \<^verbatim>\<open>useStreamQuery\<close> and
  \<^verbatim>\<open>useMultiStreamQuery\<close>, followed by what the hook has asked of its environment:
  the pending timeouts of the host (identifier and delay in milliseconds), the number
  of timeouts created so far, the number of handles requested from the ledger, and the
  calls made on handles (listeners registered, handles started, handles closed).
  Handles are identified by natural numbers. A call of a state setter is modelled as
  taking effect at once, in the order of the calls, as React applies them to a mounted
  component; \<^verbatim>\<open>console.debug\<close> calls are left out.
\<close>

record stream_hook =
  loading :: bool
  connected :: bool
  error :: "ErrorInfo option"
  streamRef :: "nat option"
  isCleanedUpRef :: bool
  reconnectTimeoutRef :: "nat option"
  timers :: "(nat \<times> nat) list"
  timerCount :: nat
  streamRequests :: nat
  listeners :: "(nat \<times> string) list"
  started :: "nat list"
  closed :: "nat list"

record 'a stream_query = stream_hook +
  contractsMap :: "(string, 'a CreateEvent) js_map"

record multi_stream_query = stream_hook +
  multiStream :: "nat option"

text \<open>The values of the first render: \<^verbatim>\<open>useState\<close> initialisers and \<^verbatim>\<open>useRef\<close> values.\<close>

definition initial_stream_query :: "'a stream_query" where
  "initial_stream_query =
     \<lparr> loading = True, connected = False, error = None, streamRef = None,
       isCleanedUpRef = False, reconnectTimeoutRef = None, timers = [], timerCount = 0,
       streamRequests = 0, listeners = [], started = [], closed = [],
       contractsMap = [] \<rparr>"

definition initial_multi_stream_query :: multi_stream_query where
  "initial_multi_stream_query =
     \<lparr> loading = True, connected = False, error = None, streamRef = None,
       isCleanedUpRef = False, reconnectTimeoutRef = None, timers = [], timerCount = 0,
       streamRequests = 0, listeners = [], started = [], closed = [],
       multiStream = None \<rparr>"


section \<open>Host and handle operations\<close>

text \<open>
  \<^verbatim>\<open>setTimeout\<close> returns a fresh positive integer, as the HTML timer interface
  specifies; \<^verbatim>\<open>clearTimeout\<close> drops the pending timeout of that identifier.
  A number is truthy when it is not zero.
\<close>

definition setTimeout :: "nat \<Rightarrow> 'z stream_hook_scheme \<Rightarrow> nat \<times> 'z stream_hook_scheme" where
  "setTimeout ms s =
     (let t = Suc (timerCount s)
      in (t, s\<lparr>timers := timers s @ [(t, ms)], timerCount := t\<rparr>))"

definition clearTimeout :: "nat \<Rightarrow> 'z stream_hook_scheme \<Rightarrow> 'z stream_hook_scheme" where
  "clearTimeout t s = s\<lparr>timers := filter (\<lambda>p. fst p \<noteq> t) (timers s)\<rparr>"

definition truthy :: "nat \<Rightarrow> bool" where
  "truthy n = (n \<noteq> 0)"

text \<open>
  Calls on a handle are recorded. A method call on \<^verbatim>\<open>null\<close> throws a
  \<^verbatim>\<open>TypeError\<close>.
\<close>

definition handle_on :: "nat \<Rightarrow> string \<Rightarrow> 'z stream_hook_scheme \<Rightarrow> 'z stream_hook_scheme" where
  "handle_on h cls s = s\<lparr>listeners := listeners s @ [(h, cls)]\<rparr>"

definition handle_start :: "nat \<Rightarrow> 'z stream_hook_scheme \<Rightarrow> 'z stream_hook_scheme" where
  "handle_start h s = s\<lparr>started := started s @ [h]\<rparr>"

definition handle_close ::
  "nat option \<Rightarrow> 'z stream_hook_scheme \<Rightarrow> js_error + 'z stream_hook_scheme" where
  "handle_close r s =
     (case r of None \<Rightarrow> Inl TypeError | Some h \<Rightarrow> Inr (s\<lparr>closed := closed s @ [h]\<rparr>))"


section \<open>The ledger context\<close>

text \<open>
  The value of the React context \<^verbatim>\<open>DamlLedgerContext\<close>: \<^verbatim>\<open>null\<close> (the default of
  \<^verbatim>\<open>createContext\<close>) outside a \<^verbatim>\<open>DamlLedger\<close> provider, the provider's object within it.
  The ledger is opaque; \<^verbatim>\<open>triggerReload\<close> is represented by the updater it submits to
  \<^verbatim>\<open>setReloadTrigger\<close>.
\<close>

record 'l DamlLedgerConfig =
  ledger :: 'l
  reloadTrigger :: nat
  triggerReload :: "nat \<Rightarrow> nat"

definition useDamlLedgerContext :: "'l DamlLedgerConfig option \<Rightarrow> js_error + 'l DamlLedgerConfig" where
  "useDamlLedgerContext context =
     (case context of
        None \<Rightarrow> Inl (MisuseError ''useDamlLedgerContext must be used within a DamlLedger provider'')
      | Some c \<Rightarrow> Inr c)"

definition useLedger :: "'l DamlLedgerConfig option \<Rightarrow> js_error + 'l" where
  "useLedger context =
     (case useDamlLedgerContext context of Inl e \<Rightarrow> Inl e | Inr c \<Rightarrow> Inr (ledger c))"

definition useReload :: "'l DamlLedgerConfig option \<Rightarrow> js_error + (nat \<Rightarrow> nat)" where
  "useReload context =
     (case useDamlLedgerContext context of Inl e \<Rightarrow> Inl e | Inr c \<Rightarrow> Inr (triggerReload c))"


section \<open>useStreamQuery\<close>

text \<open>
  One render of the hook: it reads the context first, and returns the published
  fields \<^verbatim>\<open>{ contractsMap, loading, connected, error }\<close> of the current state.
\<close>

definition useStreamQuery ::
  "'l DamlLedgerConfig option \<Rightarrow> 'a stream_query \<Rightarrow>
     js_error + ((string, 'a CreateEvent) js_map \<times> bool \<times> bool \<times> ErrorInfo option)" where
  "useStreamQuery context s =
     (case useDamlLedgerContext context of
        Inl e \<Rightarrow> Inl e
      | Inr c \<Rightarrow> Inr (contractsMap s, loading s, connected s, error s))"

text \<open>The \<^verbatim>\<open>reload\<close> callback returned to the consumer.\<close>

definition reload :: "'a stream_query \<Rightarrow> 'a stream_query" where
  "reload s = s\<lparr>loading := True, error := None, contractsMap := []\<rparr>"

text \<open>The four listeners registered on a handle.\<close>

definition on_create :: "'a CreateEvent \<Rightarrow> 'a stream_query \<Rightarrow> 'a stream_query" where
  "on_create event s = s\<lparr>contractsMap := create_updater event (contractsMap s)\<rparr>"

definition on_archive :: "ArchiveEvent \<Rightarrow> 'a stream_query \<Rightarrow> 'a stream_query" where
  "on_archive event s = s\<lparr>contractsMap := archive_updater event (contractsMap s)\<rparr>"

definition on_error :: "CantonError \<Rightarrow> 'a stream_query \<Rightarrow> 'a stream_query" where
  "on_error err s = s\<lparr>error := Some (Canton err), connected := False\<rparr>"

definition on_state :: "string \<Rightarrow> 'a stream_query \<Rightarrow> 'a stream_query" where
  "on_state state s =
     (let s1 = s\<lparr>connected := (state = ''live'')\<rparr>
      in if state = ''live'' then s1\<lparr>loading := False\<rparr> else s1)"

text \<open>
  \<^verbatim>\<open>setupStream\<close> is asynchronous: it runs up to the \<^verbatim>\<open>await\<close> of
  \<^verbatim>\<open>ledger.streamQuery\<close> (\<open>setupStream_begin\<close>), and resumes when the ledger delivers a
  handle (\<open>setupStream_resolved\<close>) or fails (\<open>setupStream_rejected\<close>, the \<^verbatim>\<open>catch\<close>
  block). Other callbacks of the hook may run in between.
\<close>

definition setupStream_begin :: "'a stream_query \<Rightarrow> 'a stream_query" where
  "setupStream_begin s =
     (if isCleanedUpRef s then s
      else s\<lparr>loading := True, error := None, streamRequests := Suc (streamRequests s)\<rparr>)"

definition setupStream_resolved :: "nat \<Rightarrow> 'a stream_query \<Rightarrow> 'a stream_query" where
  "setupStream_resolved h s =
     (let s1 = s\<lparr>streamRef := Some h\<rparr>;
          s2 = handle_on h ''create'' s1;
          s3 = handle_on h ''archive'' s2;
          s4 = handle_on h ''error'' s3;
          s5 = handle_on h ''state'' s4
      in handle_start h s5)"

definition setupStream_rejected :: "thrown \<Rightarrow> 'a stream_query \<Rightarrow> 'a stream_query" where
  "setupStream_rejected err s =
     (let errorMessage =
            (case err of
               ErrorObject n m \<Rightarrow> n @ '': '' @ m
             | NotAnError \<Rightarrow> ''Failed to setup stream'');
          s1 = s\<lparr>error := Some (Message errorMessage), connected := False, loading := False\<rparr>
      in if \<not> isCleanedUpRef s1
         then (case setTimeout 5000 s1 of (t, s2) \<Rightarrow> s2\<lparr>reconnectTimeoutRef := Some t\<rparr>)
         else s1)"

text \<open>The timeout callback \<^verbatim>\<open>() => { void setupStream() }\<close>, run by the host when timeout
  \<open>t\<close> is pending and due.\<close>

definition timeout_fires :: "nat \<Rightarrow> 'a stream_query \<Rightarrow> 'a stream_query" where
  "timeout_fires t s =
     (if t \<in> fst ` set (timers s)
      then setupStream_begin (s\<lparr>timers := filter (\<lambda>p. fst p \<noteq> t) (timers s)\<rparr>)
      else s)"

text \<open>The body of the streaming effect up to the first \<^verbatim>\<open>await\<close>, and its cleanup.\<close>

definition stream_effect :: "'a stream_query \<Rightarrow> 'a stream_query" where
  "stream_effect s = setupStream_begin (s\<lparr>isCleanedUpRef := False\<rparr>)"

definition cleanup :: "'a stream_query \<Rightarrow> js_error + 'a stream_query" where
  "cleanup s =
     (let s1 = s\<lparr>isCleanedUpRef := True\<rparr>;
          s2 = (case reconnectTimeoutRef s1 of
                  None \<Rightarrow> s1
                | Some t \<Rightarrow>
                    if truthy t then (clearTimeout t s1)\<lparr>reconnectTimeoutRef := None\<rparr> else s1)
      in case (if streamRef s2 \<noteq> None
               then (case handle_close (streamRef s2) s2 of
                       Inl e \<Rightarrow> Inl e
                     | Inr s3 \<Rightarrow> Inr (s3\<lparr>streamRef := None\<rparr>))
               else Inr s2) of
           Inl e \<Rightarrow> Inl e
         | Inr s4 \<Rightarrow> Inr (s4\<lparr>connected := False\<rparr>))"

text \<open>The effect on \<^verbatim>\<open>reloadTrigger\<close>.\<close>

definition reloadTrigger_effect :: "nat \<Rightarrow> 'a stream_query \<Rightarrow> 'a stream_query" where
  "reloadTrigger_effect trigger s = (if trigger > 0 then reload s else s)"

text \<open>
  Delivery of an event by handle \<open>h\<close>: the listener registered on \<open>h\<close> for the class of
  the event runs, if there is one. The hook never removes a listener.
\<close>

fun listener :: "'a stream_event \<Rightarrow> 'a stream_query \<Rightarrow> 'a stream_query" where
  "listener (Create event) s = on_create event s"
| "listener (Archive event) s = on_archive event s"
| "listener (Failure err) s = on_error err s"
| "listener (StateChange state) s = on_state state s"

definition deliver :: "nat \<Rightarrow> 'a stream_event \<Rightarrow> 'a stream_query \<Rightarrow> 'a stream_query" where
  "deliver h ev s = (if (h, event_class ev) \<in> set (listeners s) then listener ev s else s)"

definition deliver_all :: "nat \<Rightarrow> 'a stream_event list \<Rightarrow> 'a stream_query \<Rightarrow> 'a stream_query" where
  "deliver_all h evs s = foldl (\<lambda>s ev. deliver h ev s) s evs"


section \<open>useMultiStreamQuery\<close>

definition useMultiStreamQuery ::
  "'l DamlLedgerConfig option \<Rightarrow> multi_stream_query \<Rightarrow>
     js_error + (nat option \<times> bool \<times> bool \<times> ErrorInfo option)" where
  "useMultiStreamQuery context s =
     (case useDamlLedgerContext context of
        Inl e \<Rightarrow> Inl e
      | Inr c \<Rightarrow> Inr (multiStream s, loading s, connected s, error s))"

definition multi_reload :: "multi_stream_query \<Rightarrow> multi_stream_query" where
  "multi_reload s = s\<lparr>loading := True, error := None, multiStream := None\<rparr>"

definition multi_onState :: "string \<Rightarrow> multi_stream_query \<Rightarrow> multi_stream_query" where
  "multi_onState state s =
     (let s1 = s\<lparr>connected := (state = ''live'')\<rparr>
      in if state = ''live'' then s1\<lparr>loading := False\<rparr> else s1)"

definition multi_onError :: "CantonError \<Rightarrow> multi_stream_query \<Rightarrow> multi_stream_query" where
  "multi_onError err s = s\<lparr>error := cause err, connected := False\<rparr>"

definition multi_setupStream_begin :: "multi_stream_query \<Rightarrow> multi_stream_query" where
  "multi_setupStream_begin s =
     (if isCleanedUpRef s then s
      else s\<lparr>loading := True, error := None, streamRequests := Suc (streamRequests s)\<rparr>)"

definition multi_setupStream_resolved :: "nat \<Rightarrow> multi_stream_query \<Rightarrow> multi_stream_query" where
  "multi_setupStream_resolved h s =
     (let s1 = s\<lparr>streamRef := Some h\<rparr>;
          s2 = handle_on h ''state'' s1;
          s3 = handle_on h ''error'' s2;
          s4 = s3\<lparr>multiStream := streamRef s3\<rparr>
      in handle_start h s4)"

definition multi_setupStream_rejected :: "thrown \<Rightarrow> multi_stream_query \<Rightarrow> multi_stream_query" where
  "multi_setupStream_rejected err s =
     (let errorMessage =
            (case err of
               ErrorObject n m \<Rightarrow> n @ '': '' @ m
             | NotAnError \<Rightarrow> ''Failed to setup multi-stream'');
          s1 = s\<lparr>error := Some (Message errorMessage), connected := False, loading := False\<rparr>
      in if \<not> isCleanedUpRef s1
         then (case setTimeout 5000 s1 of (t, s2) \<Rightarrow> s2\<lparr>reconnectTimeoutRef := Some t\<rparr>)
         else s1)"

definition multi_timeout_fires :: "nat \<Rightarrow> multi_stream_query \<Rightarrow> multi_stream_query" where
  "multi_timeout_fires t s =
     (if t \<in> fst ` set (timers s)
      then multi_setupStream_begin (s\<lparr>timers := filter (\<lambda>p. fst p \<noteq> t) (timers s)\<rparr>)
      else s)"

definition multi_stream_effect :: "multi_stream_query \<Rightarrow> multi_stream_query" where
  "multi_stream_effect s = multi_setupStream_begin (s\<lparr>isCleanedUpRef := False\<rparr>)"

definition multi_cleanup :: "multi_stream_query \<Rightarrow> js_error + multi_stream_query" where
  "multi_cleanup s =
     (let s1 = s\<lparr>isCleanedUpRef := True\<rparr>;
          s2 = (case reconnectTimeoutRef s1 of
                  None \<Rightarrow> s1
                | Some t \<Rightarrow>
                    if truthy t then (clearTimeout t s1)\<lparr>reconnectTimeoutRef := None\<rparr> else s1)
      in case (if streamRef s2 \<noteq> None
               then (case handle_close (streamRef s2) s2 of
                       Inl e \<Rightarrow> Inl e
                     | Inr s3 \<Rightarrow> Inr (s3\<lparr>streamRef := None\<rparr>))
               else Inr s2) of
           Inl e \<Rightarrow> Inl e
         | Inr s4 \<Rightarrow> Inr (s4\<lparr>connected := False, multiStream := None\<rparr>))"


text \<open>
  Delivery of an event by the multi-stream \<open>h\<close> to the hook. The hook registers a
  listener for state changes (\<^verbatim>\<open>onState\<close>) and one for errors (\<^verbatim>\<open>onError\<close>); contract
  events go to the handlers the consumer registers on the published multi-stream and
  never reach the hook.
\<close>

datatype multi_event = MultiStateChange string | MultiFailure CantonError

fun multi_event_class :: "multi_event \<Rightarrow> string" where
  "multi_event_class (MultiStateChange _) = ''state''"
| "multi_event_class (MultiFailure _) = ''error''"

fun multi_listener :: "multi_event \<Rightarrow> multi_stream_query \<Rightarrow> multi_stream_query" where
  "multi_listener (MultiStateChange state) s = multi_onState state s"
| "multi_listener (MultiFailure err) s = multi_onError err s"

definition multi_deliver :: "nat \<Rightarrow> multi_event \<Rightarrow> multi_stream_query \<Rightarrow> multi_stream_query" where
  "multi_deliver h ev s =
     (if (h, multi_event_class ev) \<in> set (listeners s) then multi_listener ev s else s)"


section \<open>Reference notions for the view\<close>

text \<open>
  The contracts view after a list of events has gone through the two updaters; error
  and state events do not touch it.
\<close>

fun apply_event ::
  "'a stream_event \<Rightarrow> (string, 'a CreateEvent) js_map \<Rightarrow> (string, 'a CreateEvent) js_map" where
  "apply_event (Create event) m = create_updater event m"
| "apply_event (Archive event) m = archive_updater event m"
| "apply_event (Failure _) m = m"
| "apply_event (StateChange _) m = m"

definition fold_view ::
  "'a stream_event list \<Rightarrow> (string, 'a CreateEvent) js_map \<Rightarrow> (string, 'a CreateEvent) js_map" where
  "fold_view evs m = foldl (\<lambda>m ev. apply_event ev m) m evs"

text \<open>
  What an event list says about an identity \<open>k\<close>, read off the list alone:
  whether a removal of \<open>k\<close> occurs in it, whether some addition of \<open>k\<close> has no removal of
  \<open>k\<close> after it, and the last addition written for \<open>k\<close>.
\<close>

fun is_removal_of :: "string \<Rightarrow> 'a stream_event \<Rightarrow> bool" where
  "is_removal_of k (Archive event) = (archivedId event = k)"
| "is_removal_of k _ = False"

definition removed_in :: "string \<Rightarrow> 'a stream_event list \<Rightarrow> bool" where
  "removed_in k evs = list_ex (is_removal_of k) evs"

fun added_not_removed :: "string \<Rightarrow> 'a stream_event list \<Rightarrow> bool" where
  "added_not_removed k [] = False"
| "added_not_removed k (Create event # evs) =
     ((contractId event = k \<and> \<not> removed_in k evs) \<or> added_not_removed k evs)"
| "added_not_removed k (_ # evs) = added_not_removed k evs"

fun last_addition :: "string \<Rightarrow> 'a stream_event list \<Rightarrow> 'a CreateEvent option" where
  "last_addition k [] = None"
| "last_addition k (Create event # evs) =
     (case last_addition k evs of
        Some e \<Rightarrow> Some e
      | None \<Rightarrow> if contractId event = k then Some event else None)"
| "last_addition k (_ # evs) = last_addition k evs"

text \<open>
  Orders of arrival. \<open>additions\<close> lists the identity of every addition; \<open>live_additions\<close>
  lists the identity of every addition that no later removal of the same identity
  follows; \<open>first_occurrences\<close> keeps the first occurrence of each element of a list.
\<close>

fun additions :: "'a stream_event list \<Rightarrow> string list" where
  "additions [] = []"
| "additions (Create event # evs) = contractId event # additions evs"
| "additions (_ # evs) = additions evs"

fun live_additions :: "'a stream_event list \<Rightarrow> string list" where
  "live_additions [] = []"
| "live_additions (Create event # evs) =
     (if removed_in (contractId event) evs then live_additions evs
      else contractId event # live_additions evs)"
| "live_additions (_ # evs) = live_additions evs"

definition first_occurrences :: "'k list \<Rightarrow> 'k list" where
  "first_occurrences xs = rev (remdups (rev xs))"

text \<open>
  The reading of "keys appear in the order their additions first arrived" over the whole
  history: the keys of the view are the first occurrences of the additions, restricted
  to the keys still present.
\<close>

definition in_first_addition_order ::
  "'a stream_event list \<Rightarrow> (string, 'a CreateEvent) js_map \<Rightarrow> bool" where
  "in_first_addition_order evs m =
     (map_keys m = filter (\<lambda>k. k \<in> set (map_keys m)) (first_occurrences (additions evs)))"

text \<open>The reconnect reference holds no falsy timer identifier.\<close>

definition timer_ref_ok :: "'z stream_hook_scheme \<Rightarrow> bool" where
  "timer_ref_ok s = (case reconnectTimeoutRef s of None \<Rightarrow> True | Some t \<Rightarrow> truthy t)"


section \<open>Example runs\<close>

text \<open>
  A hook whose first handle (number 1) has been set up; the same after the snapshot
  \<open>c1\<close> has streamed in and the handle has reported \<open>live\<close>; the latter stopped by the
  cleanup; and the stopped hook set up again with a second handle (number 2), as
  after a change of the subscription's parameters.
\<close>

definition set_up_example :: "nat stream_query" where
  "set_up_example = setupStream_resolved 1 (stream_effect initial_stream_query)"

definition live_example :: "nat stream_query" where
  "live_example =
     deliver_all 1 [Create (CreateEvent ''c1'' 7), StateChange ''live''] set_up_example"

definition stopped_example :: "nat stream_query" where
  "stopped_example = (case cleanup live_example of Inr s \<Rightarrow> s | Inl e \<Rightarrow> live_example)"

definition superseded_example :: "nat stream_query" where
  "superseded_example = setupStream_resolved 2 (stream_effect stopped_example)"

definition set_up_multi_example :: multi_stream_query where
  "set_up_multi_example =
     multi_onState ''live''
       (multi_setupStream_resolved 1 (multi_stream_effect initial_multi_stream_query))"


text \<open>A hook whose first request for a handle has failed, with its retry pending.\<close>

definition failed_example :: "nat stream_query" where
  "failed_example =
     setupStream_rejected (ErrorObject ''Error'' ''unreachable'')
       (stream_effect initial_stream_query)"

definition failed_multi_example :: multi_stream_query where
  "failed_multi_example =
     multi_setupStream_rejected NotAnError (multi_stream_effect initial_multi_stream_query)"

text \<open>
  Two overlapping setups. The effect runs and its request for a handle is in flight;
  the effect is cleaned up and run again (its dependencies changed, or React's strict
  mode replays it), so that a second request is in flight; then both requests fail,
  the first before the second; then the effect is cleaned up.
\<close>

definition restarted_in_flight_example :: "nat stream_query" where
  "restarted_in_flight_example =
     stream_effect
       (case cleanup (stream_effect initial_stream_query) of
          Inr s \<Rightarrow> s
        | Inl e \<Rightarrow> initial_stream_query)"

definition both_rejected_example :: "nat stream_query" where
  "both_rejected_example =
     setupStream_rejected NotAnError
       (setupStream_rejected NotAnError restarted_in_flight_example)"

definition overlap_stopped_example :: "nat stream_query" where
  "overlap_stopped_example =
     (case cleanup both_rejected_example of Inr s \<Rightarrow> s | Inl e \<Rightarrow> both_rejected_example)"

text \<open>
  What React runs after the provider's \<^verbatim>\<open>triggerReload\<close>: the provider renders with the
  incremented \<^verbatim>\<open>reloadTrigger\<close> and a new \<^verbatim>\<open>Ledger\<close> (its \<^verbatim>\<open>useMemo\<close> depends on the
  trigger), so the streaming effect, which depends on the ledger, is cleaned up and run
  again, and then the effect on \<^verbatim>\<open>reloadTrigger\<close> runs.
\<close>

definition after_triggerReload :: "nat \<Rightarrow> 'a stream_query \<Rightarrow> js_error + 'a stream_query" where
  "after_triggerReload trigger s =
     (case cleanup s of
        Inl e \<Rightarrow> Inl e
      | Inr s1 \<Rightarrow> Inr (reloadTrigger_effect trigger (stream_effect s1)))"


section \<open>Properties of the Map operations and of the fold of events\<close>

lemma remdups_absorb: "k \<in> set ys \<Longrightarrow> remdups (xs @ k # ys) = remdups (xs @ ys)"
  by (induction xs) auto

lemma first_occ_absorb: "k \<in> set A \<Longrightarrow> first_occurrences (A @ k # L) = first_occurrences (A @ L)"
  by (simp add: first_occurrences_def remdups_absorb)

lemma first_occ_distinct: "distinct xs \<Longrightarrow> first_occurrences xs = xs"
  by (simp add: first_occurrences_def distinct_remdups_id)

lemma distinct_first_occ: "distinct (first_occurrences xs)"
  by (simp add: first_occurrences_def)
lemma keys_map_set: "map_keys (map_set k v m) = (if k \<in> set (map_keys m) then map_keys m else map_keys m @ [k])"
  by (induction m) (auto simp: map_keys_def)

lemma keys_map_delete: "map_keys (map_delete k m) = filter (\<lambda>x. x \<noteq> k) (map_keys m)"
  by (induction m) (auto simp: map_keys_def)

lemma get_map_set: "map_get (map_set k v m) x = (if x = k then Some v else map_get m x)"
  by (induction m) (auto simp: map_get_def)

lemma get_map_delete: "map_get (map_delete k m) x = (if x = k then None else map_get m x)"
  by (induction m) (auto simp: map_get_def)

lemma removed_in_simps:
  "removed_in k [] = False"
  "removed_in k (Create e # evs) = removed_in k evs"
  "removed_in k (Archive a # evs) = (k = archivedId a \<or> removed_in k evs)"
  "removed_in k (Failure c # evs) = removed_in k evs"
  "removed_in k (StateChange st # evs) = removed_in k evs"
  by (auto simp add: removed_in_def)

lemma fold_view_simps:
  "fold_view [] m = m"
  "fold_view (ev # evs) m = fold_view evs (apply_event ev m)"
  by (simp_all add: fold_view_def)


lemma distinct_apply_event:
  "distinct (map_keys m) \<Longrightarrow> distinct (map_keys (apply_event ev m))"
  by (cases ev) (simp_all add: create_updater_def archive_updater_def keys_map_set keys_map_delete)

lemma keys_fold_view:
  "distinct (map_keys m) \<Longrightarrow> map_keys (fold_view evs m) =
     first_occurrences (filter (\<lambda>k. \<not> removed_in k evs) (map_keys m) @ live_additions evs)"
proof (induction evs arbitrary: m)
  case Nil
  then show ?case by (simp add: fold_view_simps removed_in_simps first_occ_distinct)
next
  case (Cons ev evs)
  have d: "distinct (map_keys (apply_event ev m))"
    using Cons.prems by (rule distinct_apply_event)
  show ?case
  proof (cases ev)
    case (Create e)
    then show ?thesis
      using Cons.IH [OF d]
      by (simp add: fold_view_simps removed_in_simps create_updater_def keys_map_set first_occ_absorb)
  next
    case (Archive a)
    then show ?thesis
      using Cons.IH [OF d]
      by (simp add: fold_view_simps removed_in_simps archive_updater_def keys_map_delete conj_commute)
  next
    case (Failure c)
    then show ?thesis using Cons.IH [OF d] by (simp add: fold_view_simps removed_in_simps)
  next
    case (StateChange st)
    then show ?thesis using Cons.IH [OF d] by (simp add: fold_view_simps removed_in_simps)
  qed
qed

lemma last_addition_None: "\<not> added_not_removed k evs \<Longrightarrow> \<not> removed_in k evs \<Longrightarrow> last_addition k evs = None"
  by (induction k evs rule: last_addition.induct) (auto simp: removed_in_simps)

lemma added_last_addition: "added_not_removed k evs \<Longrightarrow> \<exists>e. last_addition k evs = Some e"
  by (induction k evs rule: added_not_removed.induct) (auto simp: removed_in_simps split: option.splits)

lemma get_fold_view:
  "map_get (fold_view evs m) k =
     (if added_not_removed k evs then last_addition k evs
      else if removed_in k evs then None else map_get m k)"
proof (induction evs arbitrary: m)
  case Nil
  then show ?case by (simp add: fold_view_simps removed_in_simps)
next
  case (Cons ev evs)
  show ?case
  proof (cases ev)
    case (Create e)
    then show ?thesis
      using added_last_addition [of k evs] last_addition_None [of k evs]
      by (auto simp add: fold_view_simps removed_in_simps create_updater_def get_map_set Cons.IH)
  next
    case (Archive a)
    then show ?thesis
      by (auto simp add: fold_view_simps removed_in_simps archive_updater_def get_map_delete Cons.IH)
  next
    case (Failure c)
    then show ?thesis by (simp add: fold_view_simps removed_in_simps Cons.IH)
  next
    case (StateChange st)
    then show ?thesis by (simp add: fold_view_simps removed_in_simps Cons.IH)
  qed
qed

lemma keys_iff_get: "k \<in> set (map_keys m) \<longleftrightarrow> map_get m k \<noteq> None"
  by (induction m) (auto simp: map_keys_def map_get_def)



section \<open>Delivery of events and the view\<close>

lemmas example_defs = set_up_example_def live_example_def stopped_example_def superseded_example_def
  set_up_multi_example_def initial_stream_query_def initial_multi_stream_query_def
  stream_effect_def multi_stream_effect_def setupStream_begin_def multi_setupStream_begin_def
  setupStream_resolved_def multi_setupStream_resolved_def handle_on_def handle_start_def
  deliver_all_def deliver_def on_create_def on_archive_def on_error_def on_state_def
  create_updater_def archive_updater_def cleanup_def multi_cleanup_def handle_close_def
  clearTimeout_def truthy_def multi_onState_def multi_onError_def Let_def


lemma listeners_listener: "listeners (listener ev s) = listeners s"
  by (cases ev) (simp_all add: on_create_def on_archive_def on_error_def on_state_def Let_def)

lemma contractsMap_listener: "contractsMap (listener ev s) = apply_event ev (contractsMap s)"
  by (cases ev) (simp_all add: on_create_def on_archive_def on_error_def on_state_def Let_def)

lemma deliver_all_simps:
  "deliver_all h [] s = s"
  "deliver_all h (ev # evs) s = deliver_all h evs (deliver h ev s)"
  by (simp_all add: deliver_all_def)

lemma contractsMap_deliver_all:
  "\<forall>ev \<in> set evs. (h, event_class ev) \<in> set (listeners s) \<Longrightarrow>
   contractsMap (deliver_all h evs s) = fold_view evs (contractsMap s)"
proof (induction evs arbitrary: s)
  case Nil
  show ?case by (simp add: deliver_all_simps fold_view_simps)
next
  case (Cons ev evs)
  have reg: "(h, event_class ev) \<in> set (listeners s)" using Cons.prems by simp
  then have step: "deliver h ev s = listener ev s" by (simp add: deliver_def)
  have "\<forall>e \<in> set evs. (h, event_class e) \<in> set (listeners (listener ev s))"
    using Cons.prems by (simp add: listeners_listener)
  then have "contractsMap (deliver_all h evs (listener ev s)) = fold_view evs (contractsMap (listener ev s))"
    by (rule Cons.IH)
  then show ?case
    by (simp add: deliver_all_simps step fold_view_simps contractsMap_listener)
qed

lemma map_delete_absent: "k \<notin> set (map_keys m) \<Longrightarrow> map_delete k m = m"
  by (induction m) (auto simp: map_keys_def)


lemmas failed_defs = failed_example_def failed_multi_example_def setupStream_rejected_def
  multi_setupStream_rejected_def setTimeout_def timer_ref_ok_def timeout_fires_def

text \<open>
  Every operation of the hooks keeps the reconnect reference free of falsy
  identifiers: the only value ever stored in it comes from \<open>setTimeout\<close>.
\<close>

lemma timer_ref_ok_steps:
  "timer_ref_ok (initial_stream_query :: 'a stream_query)"
  "timer_ref_ok initial_multi_stream_query"
  "timer_ref_ok s \<Longrightarrow> timer_ref_ok (setupStream_rejected err s)"
  "timer_ref_ok s \<Longrightarrow> timer_ref_ok (setupStream_begin s)"
  "timer_ref_ok s \<Longrightarrow> timer_ref_ok (setupStream_resolved h s)"
  "timer_ref_ok s \<Longrightarrow> timer_ref_ok (stream_effect s)"
  "timer_ref_ok s \<Longrightarrow> timer_ref_ok (timeout_fires t s)"
  "timer_ref_ok s \<Longrightarrow> timer_ref_ok (deliver h ev s)"
  "timer_ref_ok s \<Longrightarrow> timer_ref_ok (reload s)"
  "timer_ref_ok s' \<Longrightarrow> timer_ref_ok (multi_setupStream_rejected err s')"
  "timer_ref_ok s' \<Longrightarrow> timer_ref_ok (multi_setupStream_begin s')"
  "timer_ref_ok s' \<Longrightarrow> timer_ref_ok (multi_setupStream_resolved h s')"
  "timer_ref_ok s' \<Longrightarrow> timer_ref_ok (multi_stream_effect s')"
  "timer_ref_ok s' \<Longrightarrow> timer_ref_ok (multi_timeout_fires t s')"
  "timer_ref_ok s' \<Longrightarrow> timer_ref_ok (multi_onState st s')"
  "timer_ref_ok s' \<Longrightarrow> timer_ref_ok (multi_onError e s')"
  "timer_ref_ok s' \<Longrightarrow> timer_ref_ok (multi_reload s')"
  by (cases ev; simp add: example_defs failed_defs reload_def multi_reload_def multi_timeout_fires_def
      split: option.splits)+


section \<open>The materialized view\<close>

text \<open>
  Claim C3. Let a hook have an empty contracts view and let handle \<open>h\<close>, whose listeners
  are registered, deliver any finite sequence of events. Then an identity is a key of
  the final view exactly when the sequence contains an addition of it with no removal
  of it afterwards; the value stored under it is the last addition written for it
  (last write wins); and a removal of an identity that is absent from a view leaves
  that view unchanged.
\<close>

theorem view_is_added_minus_removed:
  assumes empty: "contractsMap s = []"
    and registered: "\<forall>ev \<in> set evs. (h, event_class ev) \<in> set (listeners s)"
  shows "(k \<in> set (map_keys (contractsMap (deliver_all h evs s))) \<longleftrightarrow> added_not_removed k evs)
    \<and> map_get (contractsMap (deliver_all h evs s)) k =
        (if added_not_removed k evs then last_addition k evs else None)
    \<and> (k \<notin> set (map_keys (contractsMap t)) \<longrightarrow>
          contractsMap (on_archive (ArchiveEvent k) t) = contractsMap t)"
proof -
  have v: "contractsMap (deliver_all h evs s) = fold_view evs []"
    using contractsMap_deliver_all [OF registered] empty by simp
  have g: "map_get (fold_view evs []) k = (if added_not_removed k evs then last_addition k evs else None)"
    by (simp add: get_fold_view) (simp add: map_get_def)
  have m: "k \<in> set (map_keys (fold_view evs [])) \<longleftrightarrow> added_not_removed k evs"
    using added_last_addition [of k evs] by (auto simp add: keys_iff_get g)
  have d: "k \<notin> set (map_keys (contractsMap t)) \<longrightarrow>
      contractsMap (on_archive (ArchiveEvent k) t) = contractsMap t"
    by (simp add: on_archive_def archive_updater_def map_delete_absent)
  show ?thesis using v g m d by simp
qed


theorem view_is_added_minus_removed_witness:
  "contractsMap (set_up_example :: nat stream_query) = []
   \<and> ''c1'' \<in> set (map_keys (contractsMap (deliver_all 1
        [Create (CreateEvent ''c1'' 7), Create (CreateEvent ''c2'' 8), StateChange ''live'',
         Create (CreateEvent ''c1'' 9), Archive (ArchiveEvent ''c2''),
         Archive (ArchiveEvent ''c3'')] set_up_example)))
   \<and> map_get (contractsMap (deliver_all 1
        [Create (CreateEvent ''c1'' 7), Create (CreateEvent ''c2'' 8), StateChange ''live'',
         Create (CreateEvent ''c1'' 9), Archive (ArchiveEvent ''c2''),
         Archive (ArchiveEvent ''c3'')] set_up_example)) ''c1'' = Some (CreateEvent ''c1'' 9)
   \<and> contractsMap (on_archive (ArchiveEvent ''c1'') (set_up_example :: nat stream_query))
        = contractsMap (set_up_example :: nat stream_query)"
proof -
  have e: "contractsMap (set_up_example :: nat stream_query) = []"
    by (simp add: example_defs)
  have r: "\<forall>ev \<in> set [Create (CreateEvent ''c1'' (7::nat)), Create (CreateEvent ''c2'' 8),
         StateChange ''live'', Create (CreateEvent ''c1'' 9), Archive (ArchiveEvent ''c2''),
         Archive (ArchiveEvent ''c3'')]. (1, event_class ev) \<in> set (listeners (set_up_example :: nat stream_query))"
    by (simp add: example_defs)
  have a: "''c1'' \<notin> set (map_keys (contractsMap (set_up_example :: nat stream_query)))"
    by (simp add: e map_keys_def)
  show ?thesis
    using view_is_added_minus_removed [OF e r, of "''c1''" set_up_example] e a
    by (simp add: removed_in_def)
qed


section \<open>Status events\<close>

text \<open>
  Claim C7. In both streaming hooks, the setup registers a listener for status events
  on the handle it obtains. When a handle whose status listener is registered delivers
  a status event carrying \<open>live\<close>, the hook publishes \<open>connected = true\<close> and
  \<open>loading = false\<close>; when it delivers any other value, the hook publishes
  \<open>connected = false\<close> and the loading flag it published before. The view (the
  multi-stream) and the error are published unchanged.
\<close>

theorem status_event_live:
  "(h, ''state'') \<in> set (listeners (setupStream_resolved h t))
   \<and> (h, ''state'') \<in> set (listeners (multi_setupStream_resolved h t'))
   \<and> ((h, ''state'') \<in> set (listeners s) \<longrightarrow>
        useStreamQuery (Some c) (deliver h (StateChange ''live'') s) =
          Inr (contractsMap s, False, True, error s)
        \<and> (state \<noteq> ''live'' \<longrightarrow>
             useStreamQuery (Some c) (deliver h (StateChange state) s) =
               Inr (contractsMap s, loading s, False, error s)))
   \<and> ((h, ''state'') \<in> set (listeners s') \<longrightarrow>
        useMultiStreamQuery (Some c) (multi_deliver h (MultiStateChange ''live'') s') =
          Inr (multiStream s', False, True, error s')
        \<and> (state \<noteq> ''live'' \<longrightarrow>
             useMultiStreamQuery (Some c) (multi_deliver h (MultiStateChange state) s') =
               Inr (multiStream s', loading s', False, error s')))"
  by (simp add: setupStream_resolved_def multi_setupStream_resolved_def handle_on_def
      handle_start_def deliver_def multi_deliver_def on_state_def multi_onState_def
      useStreamQuery_def useMultiStreamQuery_def useDamlLedgerContext_def Let_def)

theorem status_event_live_witness:
  "(1, ''state'') \<in> set (listeners (set_up_example :: nat stream_query))
   \<and> useStreamQuery (Some \<lparr>ledger = (), reloadTrigger = 0, triggerReload = Suc\<rparr>)
        (deliver 1 (StateChange ''live'') (set_up_example :: nat stream_query)) =
        Inr (contractsMap (set_up_example :: nat stream_query), False, True,
             error (set_up_example :: nat stream_query))
   \<and> (1, ''state'') \<in> set (listeners live_example)
   \<and> useStreamQuery (Some \<lparr>ledger = (), reloadTrigger = 0, triggerReload = Suc\<rparr>)
        (deliver 1 (StateChange ''connecting'') live_example) =
        Inr (contractsMap live_example, loading live_example, False, error live_example)
   \<and> (1, ''state'') \<in> set (listeners set_up_multi_example)
   \<and> useMultiStreamQuery (Some \<lparr>ledger = (), reloadTrigger = 0, triggerReload = Suc\<rparr>)
        (multi_deliver 1 (MultiStateChange ''closed'') set_up_multi_example) =
        Inr (multiStream set_up_multi_example, loading set_up_multi_example, False,
             error set_up_multi_example)
   \<and> useMultiStreamQuery (Some \<lparr>ledger = (), reloadTrigger = 0, triggerReload = Suc\<rparr>)
        (multi_deliver 1 (MultiStateChange ''live'') set_up_multi_example) =
        Inr (multiStream set_up_multi_example, False, True, error set_up_multi_example)"
proof -
  have r: "(1, ''state'') \<in> set (listeners (set_up_example :: nat stream_query))"
    "(1, ''state'') \<in> set (listeners live_example)"
    "(1, ''state'') \<in> set (listeners set_up_multi_example)"
    by (simp_all add: example_defs)
  show ?thesis
    using status_event_live [of 1 set_up_example set_up_multi_example set_up_example
        "\<lparr>ledger = (), reloadTrigger = 0, triggerReload = Suc\<rparr>" "''connecting''" set_up_multi_example]
      status_event_live [of 1 set_up_example set_up_multi_example live_example
        "\<lparr>ledger = (), reloadTrigger = 0, triggerReload = Suc\<rparr>" "''connecting''" set_up_multi_example]
      status_event_live [of 1 set_up_example set_up_multi_example live_example
        "\<lparr>ledger = (), reloadTrigger = 0, triggerReload = Suc\<rparr>" "''closed''" set_up_multi_example]
      r
    by simp
qed


section \<open>Setup failure\<close>

text \<open>
  Claim C10. After a setup failure, both hooks publish \<open>loading = false\<close>,
  \<open>connected = false\<close> and the error string made of the name and the message of the
  caught \<open>Error\<close> separated by a colon and a space, or the hook's fixed fallback string
  when the caught value is not an \<open>Error\<close>; the contracts view (the published
  multi-stream, for the multi-stream hook) is the one from before the failure.
\<close>

theorem setup_failure_published:
  "useStreamQuery (Some c) (setupStream_rejected (ErrorObject n m) s) =
      Inr (contractsMap s, False, False, Some (Message (n @ '': '' @ m)))
   \<and> useStreamQuery (Some c) (setupStream_rejected NotAnError s) =
      Inr (contractsMap s, False, False, Some (Message ''Failed to setup stream''))
   \<and> useMultiStreamQuery (Some c) (multi_setupStream_rejected (ErrorObject n m) s') =
      Inr (multiStream s', False, False, Some (Message (n @ '': '' @ m)))
   \<and> useMultiStreamQuery (Some c) (multi_setupStream_rejected NotAnError s') =
      Inr (multiStream s', False, False, Some (Message ''Failed to setup multi-stream''))"
  by (simp add: useStreamQuery_def useMultiStreamQuery_def useDamlLedgerContext_def
      setupStream_rejected_def multi_setupStream_rejected_def setTimeout_def Let_def)


section \<open>Misuse of the context\<close>

text \<open>
  Claim C9. Outside a \<open>DamlLedger\<close> provider the context is \<open>null\<close>, and every modelled
  hook that reads it throws the misuse error during the call itself: the call yields
  the error and no state, so nothing is scheduled that could repeat it. Within a
  provider the same hooks return their value and never this error.
\<close>

theorem misuse_outside_provider:
  "useDamlLedgerContext None =
      Inl (MisuseError ''useDamlLedgerContext must be used within a DamlLedger provider'')
   \<and> useLedger None =
      Inl (MisuseError ''useDamlLedgerContext must be used within a DamlLedger provider'')
   \<and> useReload None =
      Inl (MisuseError ''useDamlLedgerContext must be used within a DamlLedger provider'')
   \<and> useStreamQuery None s =
      Inl (MisuseError ''useDamlLedgerContext must be used within a DamlLedger provider'')
   \<and> useMultiStreamQuery None s' =
      Inl (MisuseError ''useDamlLedgerContext must be used within a DamlLedger provider'')
   \<and> useDamlLedgerContext (Some c) = Inr c
   \<and> useLedger (Some c) = Inr (ledger c)
   \<and> useReload (Some c) = Inr (triggerReload c)
   \<and> useStreamQuery (Some c) s = Inr (contractsMap s, loading s, connected s, error s)
   \<and> useMultiStreamQuery (Some c) s' = Inr (multiStream s', loading s', connected s', error s')"
  by (simp add: useDamlLedgerContext_def useLedger_def useReload_def useStreamQuery_def
      useMultiStreamQuery_def)



section \<open>Order of the view\<close>

text \<open>
  Claim C8, as amended. Under the assumptions of C3, the keys of the view are, in this
  order and without duplicates, the identities of the additions that no later removal
  of the same identity follows, each at the place of its first such addition. Adding
  an identity that is present keeps the order of the keys, and a removal keeps the
  order of the remaining keys.
\<close>

theorem view_order_invariant:
  assumes empty: "contractsMap s = []"
    and registered: "\<forall>ev \<in> set evs. (h, event_class ev) \<in> set (listeners s)"
  shows "map_keys (contractsMap (deliver_all h evs s)) = first_occurrences (live_additions evs)
    \<and> distinct (map_keys (contractsMap (deliver_all h evs s)))
    \<and> (k \<in> set (map_keys (contractsMap t)) \<longrightarrow>
         map_keys (contractsMap (on_create (CreateEvent k v) t)) = map_keys (contractsMap t))
    \<and> map_keys (contractsMap (on_archive (ArchiveEvent k) t)) =
         filter (\<lambda>x. x \<noteq> k) (map_keys (contractsMap t))"
proof -
  have v: "contractsMap (deliver_all h evs s) = fold_view evs []"
    using contractsMap_deliver_all [OF registered] empty by simp
  have o: "map_keys (fold_view evs []) = first_occurrences (live_additions evs)"
    using keys_fold_view [of "[]" evs] by (simp add: map_keys_def)
  have d: "distinct (map_keys (fold_view evs []))"
    by (simp add: o distinct_first_occ)
  have a: "k \<in> set (map_keys (contractsMap t)) \<longrightarrow>
         map_keys (contractsMap (on_create (CreateEvent k v) t)) = map_keys (contractsMap t)"
    by (simp add: on_create_def create_updater_def keys_map_set)
  have r: "map_keys (contractsMap (on_archive (ArchiveEvent k) t)) =
         filter (\<lambda>x. x \<noteq> k) (map_keys (contractsMap t))"
    by (simp add: on_archive_def archive_updater_def keys_map_delete)
  show ?thesis using v o d a r by simp
qed

theorem view_order_invariant_witness:
  "map_keys (contractsMap (deliver_all 1
      [Create (CreateEvent ''a'' 1), Create (CreateEvent ''b'' 2), Archive (ArchiveEvent ''a''),
       Create (CreateEvent ''c'' 4), Create (CreateEvent ''a'' 3), Create (CreateEvent ''b'' 5)]
      set_up_example)) = [''b'', ''c'', ''a'']
   \<and> map_keys (contractsMap (on_create (CreateEvent ''c1'' 9) live_example)) =
       map_keys (contractsMap live_example)"
proof -
  have e: "contractsMap (set_up_example :: nat stream_query) = []"
    by (simp add: example_defs)
  have r: "\<forall>ev \<in> set [Create (CreateEvent ''a'' (1::nat)), Create (CreateEvent ''b'' 2),
       Archive (ArchiveEvent ''a''), Create (CreateEvent ''c'' 4), Create (CreateEvent ''a'' 3),
       Create (CreateEvent ''b'' 5)]. (1, event_class ev) \<in> set (listeners (set_up_example :: nat stream_query))"
    by (simp add: example_defs)
  have p: "''c1'' \<in> set (map_keys (contractsMap live_example))"
    by (simp add: example_defs map_keys_def)
  show ?thesis
    using view_order_invariant [OF e r, of "''c1''" live_example 9] p
    by (simp add: removed_in_def first_occurrences_def)
qed

text \<open>
  Claim C8 as stated fails when an identity is removed and added again: it moves to the
  end of the view, although its first addition arrived before those of the keys that
  now precede it.
\<close>

theorem view_order_counterexample:
  "map_keys (contractsMap (deliver_all 1
      [Create (CreateEvent ''a'' 1), Create (CreateEvent ''b'' 2), Archive (ArchiveEvent ''a''),
       Create (CreateEvent ''a'' 3)] set_up_example)) = [''b'', ''a'']
   \<and> first_occurrences (additions
      [Create (CreateEvent ''a'' (1::nat)), Create (CreateEvent ''b'' 2), Archive (ArchiveEvent ''a''),
       Create (CreateEvent ''a'' 3)]) = [''a'', ''b'']
   \<and> \<not> in_first_addition_order
      [Create (CreateEvent ''a'' 1), Create (CreateEvent ''b'' 2), Archive (ArchiveEvent ''a''),
       Create (CreateEvent ''a'' 3)]
      (contractsMap (deliver_all 1
        [Create (CreateEvent ''a'' 1), Create (CreateEvent ''b'' 2), Archive (ArchiveEvent ''a''),
         Create (CreateEvent ''a'' 3)] set_up_example))"
  by (simp add: example_defs in_first_addition_order_def first_occurrences_def map_keys_def)


section \<open>Stopping\<close>

text \<open>
  In both hooks the cleanup returns without throwing from every state, also one in
  which no handle was ever opened, and running it again on its result changes
  nothing. Its result has the cleaned-up flag set, \<open>connected\<close> false and no handle; the
  handle held in the stream reference, if any, has been closed; and, the reconnect reference being
  free of falsy identifiers (\<open>timer_ref_ok\<close>), the timeout of the reference is no
  longer pending and the reference is empty.
\<close>

lemma cleanup_total_idempotent:
  "(\<exists>s1. cleanup s = Inr s1 \<and> cleanup s1 = Inr s1
      \<and> isCleanedUpRef s1 \<and> \<not> connected s1 \<and> streamRef s1 = None
      \<and> closed s1 = (case streamRef s of None \<Rightarrow> closed s | Some h \<Rightarrow> closed s @ [h])
      \<and> (timer_ref_ok s \<longrightarrow> reconnectTimeoutRef s1 = None
            \<and> (\<forall>t. reconnectTimeoutRef s = Some t \<longrightarrow> t \<notin> fst ` set (timers s1))))
   \<and> (\<exists>s1. multi_cleanup s' = Inr s1 \<and> multi_cleanup s1 = Inr s1
      \<and> isCleanedUpRef s1 \<and> \<not> connected s1 \<and> streamRef s1 = None \<and> multiStream s1 = None
      \<and> closed s1 = (case streamRef s' of None \<Rightarrow> closed s' | Some h \<Rightarrow> closed s' @ [h])
      \<and> (timer_ref_ok s' \<longrightarrow> reconnectTimeoutRef s1 = None
            \<and> (\<forall>t. reconnectTimeoutRef s' = Some t \<longrightarrow> t \<notin> fst ` set (timers s1))))"
proof
  show "\<exists>s1. cleanup s = Inr s1 \<and> cleanup s1 = Inr s1
      \<and> isCleanedUpRef s1 \<and> \<not> connected s1 \<and> streamRef s1 = None
      \<and> closed s1 = (case streamRef s of None \<Rightarrow> closed s | Some h \<Rightarrow> closed s @ [h])
      \<and> (timer_ref_ok s \<longrightarrow> reconnectTimeoutRef s1 = None
            \<and> (\<forall>t. reconnectTimeoutRef s = Some t \<longrightarrow> t \<notin> fst ` set (timers s1)))"
    by (cases "reconnectTimeoutRef s"; cases "streamRef s")
      (auto simp add: cleanup_def handle_close_def clearTimeout_def truthy_def timer_ref_ok_def Let_def)
next
  show "\<exists>s1. multi_cleanup s' = Inr s1 \<and> multi_cleanup s1 = Inr s1
      \<and> isCleanedUpRef s1 \<and> \<not> connected s1 \<and> streamRef s1 = None \<and> multiStream s1 = None
      \<and> closed s1 = (case streamRef s' of None \<Rightarrow> closed s' | Some h \<Rightarrow> closed s' @ [h])
      \<and> (timer_ref_ok s' \<longrightarrow> reconnectTimeoutRef s1 = None
            \<and> (\<forall>t. reconnectTimeoutRef s' = Some t \<longrightarrow> t \<notin> fst ` set (timers s1)))"
    by (cases "reconnectTimeoutRef s'"; cases "streamRef s'")
      (auto simp add: multi_cleanup_def handle_close_def clearTimeout_def truthy_def timer_ref_ok_def Let_def)
qed

text \<open>
  Claim C6: stop is idempotent and total, closes the handle if one is open, cancels any
  pending reconnect timer and marks the subscription closed. The cleanup cancels the
  timeout of the reconnect reference only. After two overlapping setups have both
  failed, two reconnect timeouts are pending and the reference holds the second; the
  cleanup returns, sets the flag and empties the reference, and the first timeout is
  still pending.
\<close>

theorem cleanup_leaves_overwritten_timer:
  "timers both_rejected_example = [(1, 5000), (2, 5000)]
   \<and> reconnectTimeoutRef both_rejected_example = Some 2
   \<and> cleanup both_rejected_example = Inr overlap_stopped_example
   \<and> isCleanedUpRef overlap_stopped_example
   \<and> reconnectTimeoutRef overlap_stopped_example = None
   \<and> timers overlap_stopped_example = [(1, 5000)]"
  by (simp add: both_rejected_example_def restarted_in_flight_example_def
      overlap_stopped_example_def example_defs failed_defs)


section \<open>Reconnect after a setup failure\<close>

text \<open>
  When \<open>setupStream\<close> is rejected while the cleaned-up flag is not set, exactly one
  timeout of 5000 milliseconds is added and remembered in the reconnect reference, and
  no handle is requested yet; when that timeout fires, one new handle is requested,
  the timeout is no longer pending, and the handle the ledger then delivers becomes the
  current one; a cleanup that follows the rejection cancels the timeout, whose callback
  then never runs. When the flag is set at the rejection, no timeout is added.
\<close>

lemma rejected_schedules_one_retry:
  "(\<not> isCleanedUpRef s \<longrightarrow>
      timers (setupStream_rejected err s) = timers s @ [(Suc (timerCount s), 5000)]
      \<and> reconnectTimeoutRef (setupStream_rejected err s) = Some (Suc (timerCount s))
      \<and> streamRequests (setupStream_rejected err s) = streamRequests s
      \<and> streamRequests (timeout_fires (Suc (timerCount s)) (setupStream_rejected err s)) =
          Suc (streamRequests s)
      \<and> Suc (timerCount s) \<notin>
          fst ` set (timers (timeout_fires (Suc (timerCount s)) (setupStream_rejected err s)))
      \<and> streamRef (setupStream_resolved h
            (timeout_fires (Suc (timerCount s)) (setupStream_rejected err s))) = Some h
      \<and> (\<exists>s1. cleanup (setupStream_rejected err s) = Inr s1
            \<and> Suc (timerCount s) \<notin> fst ` set (timers s1)
            \<and> reconnectTimeoutRef s1 = None
            \<and> timeout_fires (Suc (timerCount s)) s1 = s1
            \<and> streamRequests s1 = streamRequests s))
   \<and> (isCleanedUpRef s \<longrightarrow>
      timers (setupStream_rejected err s) = timers s
      \<and> reconnectTimeoutRef (setupStream_rejected err s) = reconnectTimeoutRef s
      \<and> streamRequests (setupStream_rejected err s) = streamRequests s)"
  by (cases "streamRef s")
    (auto simp add: setupStream_rejected_def setTimeout_def timeout_fires_def setupStream_begin_def
      setupStream_resolved_def handle_on_def handle_start_def
      cleanup_def handle_close_def clearTimeout_def truthy_def Let_def)

text \<open>
  Claim C5: a setup failure of a controller that is not stopped schedules exactly one
  reconnect after 5 seconds, none is scheduled once the controller has been cleaned up,
  and a pending reconnect is cancelled by stop. The flag and the reconnect reference
  are shared by all runs of the effect. When the effect is cleaned up and run again
  while its first request is in flight, the flag is reset: the failure of the first
  request, whose run has been cleaned up, schedules a reconnect. When the second
  request fails too, its timeout replaces the first in the reference, and the cleanup
  cancels the second only: once the effect runs again, the first timeout fires and
  requests a handle of its own, beside the request of the running effect.
\<close>

theorem stale_retry_survives_stop:
  "isCleanedUpRef (case cleanup (stream_effect (initial_stream_query :: nat stream_query)) of
      Inr s \<Rightarrow> s | Inl e \<Rightarrow> initial_stream_query)
   \<and> \<not> isCleanedUpRef restarted_in_flight_example
   \<and> streamRequests restarted_in_flight_example = 2
   \<and> timers (setupStream_rejected NotAnError restarted_in_flight_example) = [(1, 5000)]
   \<and> timers both_rejected_example = [(1, 5000), (2, 5000)]
   \<and> cleanup both_rejected_example = Inr overlap_stopped_example
   \<and> timers overlap_stopped_example = [(1, 5000)]
   \<and> streamRequests (stream_effect overlap_stopped_example) = 3
   \<and> streamRequests (timeout_fires 1 (stream_effect overlap_stopped_example)) = 4"
  by (simp add: both_rejected_example_def restarted_in_flight_example_def
      overlap_stopped_example_def example_defs failed_defs)


section \<open>Stream failure\<close>





section \<open>Events of a stopped or superseded handle\<close>

text \<open>
  Claim C2, as amended. The cleanup returns with the cleaned-up flag set; it clears
  the timeout held in the reconnect reference, when that identifier is truthy, and
  then empties the reference, leaving every other pending timeout; it closes the
  handle held in the stream reference, and no other, and drops the reference to it;
  it removes no listener. The create and archive listeners compare no tag and test no
  flag: in every state, an event that a handle delivers to its registered listener is
  applied to the view by the updater. Discarding the events of a stopped or
  superseded handle therefore rests on the handle's own \<open>close\<close>.
\<close>

theorem stop_closes_handle_events_unchecked:
  "(\<exists>s1. cleanup s = Inr s1 \<and> isCleanedUpRef s1 \<and> streamRef s1 = None
      \<and> listeners s1 = listeners s
      \<and> closed s1 = (case streamRef s of None \<Rightarrow> closed s | Some h \<Rightarrow> closed s @ [h])
      \<and> timers s1 =
          (case reconnectTimeoutRef s of
             None \<Rightarrow> timers s
           | Some t \<Rightarrow> if truthy t then filter (\<lambda>p. fst p \<noteq> t) (timers s) else timers s)
      \<and> reconnectTimeoutRef s1 =
          (case reconnectTimeoutRef s of
             None \<Rightarrow> None
           | Some t \<Rightarrow> if truthy t then None else Some t))
   \<and> ((h, ''create'') \<in> set (listeners t) \<longrightarrow>
        contractsMap (deliver h (Create event) t) = create_updater event (contractsMap t))
   \<and> ((h, ''archive'') \<in> set (listeners t) \<longrightarrow>
        contractsMap (deliver h (Archive gone) t) = archive_updater gone (contractsMap t))"
  by (cases "reconnectTimeoutRef s"; cases "streamRef s")
    (auto simp add: cleanup_def handle_close_def clearTimeout_def Let_def
      deliver_def on_create_def on_archive_def)

theorem stop_closes_handle_events_unchecked_witness:
  "(\<exists>s1. cleanup both_rejected_example = Inr s1 \<and> isCleanedUpRef s1 \<and> streamRef s1 = None
      \<and> closed s1 = [] \<and> timers s1 = [(1, 5000)] \<and> reconnectTimeoutRef s1 = None)
   \<and> (\<exists>s1. cleanup live_example = Inr s1 \<and> isCleanedUpRef s1 \<and> streamRef s1 = None
      \<and> closed s1 = [1] \<and> timers s1 = [])
   \<and> (1, ''create'') \<in> set (listeners superseded_example)
   \<and> contractsMap (deliver 1 (Create (CreateEvent ''c2'' 8)) superseded_example) =
        create_updater (CreateEvent ''c2'' 8) (contractsMap superseded_example)
   \<and> (1, ''archive'') \<in> set (listeners superseded_example)
   \<and> contractsMap (deliver 1 (Archive (ArchiveEvent ''c1'')) superseded_example) =
        archive_updater (ArchiveEvent ''c1'') (contractsMap superseded_example)"
proof -
  have r: "(1, ''create'') \<in> set (listeners superseded_example)"
    "(1, ''archive'') \<in> set (listeners superseded_example)"
    by (simp_all add: example_defs)
  have l: "streamRef live_example = Some 1" "closed live_example = []"
    "reconnectTimeoutRef live_example = None" "timers live_example = []"
    by (simp_all add: example_defs)
  have b: "streamRef both_rejected_example = None" "closed both_rejected_example = []"
    "reconnectTimeoutRef both_rejected_example = Some 2"
    "timers both_rejected_example = [(1, 5000), (2, 5000)]"
    by (simp_all add: both_rejected_example_def restarted_in_flight_example_def
        example_defs failed_defs)
  show ?thesis
    using stop_closes_handle_events_unchecked
        [of both_rejected_example 1 superseded_example "CreateEvent ''c2'' 8" "ArchiveEvent ''c1''"]
      stop_closes_handle_events_unchecked
        [of live_example 1 superseded_example "CreateEvent ''c2'' 8" "ArchiveEvent ''c1''"]
      r l b
    by (auto simp add: truthy_def)
qed

text \<open>
  Claim C2 as stated fails. Handle 1 is closed by the cleanup and superseded by handle 2
  when the effect runs again. A create event of handle 1 delivered afterwards adds a
  contract to the current view, and an archive event of handle 1 removes one.
\<close>

theorem stale_event_counterexample:
  "cleanup live_example = Inr stopped_example
   \<and> isCleanedUpRef stopped_example \<and> closed stopped_example = [1]
   \<and> streamRef superseded_example = Some 2 \<and> closed superseded_example = [1]
   \<and> contractsMap superseded_example = [(''c1'', CreateEvent ''c1'' 7)]
   \<and> contractsMap (deliver 1 (Create (CreateEvent ''c2'' 8)) superseded_example) =
        [(''c1'', CreateEvent ''c1'' 7), (''c2'', CreateEvent ''c2'' 8)]
   \<and> contractsMap (deliver 1 (Archive (ArchiveEvent ''c1'')) superseded_example) = []"
  by (simp add: example_defs)


section \<open>Reload\<close>

text \<open>
  Claim C4 does not hold of the \<open>reload\<close> callback the hook returns. On a live stream
  with handle 1 it empties the view and sets the loading flag, but handle 1 stays the
  current handle, is not closed, and no handle is requested; stopping and starting
  again closes handle 1 and requests a second handle, which is also what the
  provider's \<open>triggerReload\<close> leads to.
\<close>

theorem reload_keeps_handle:
  "streamRef live_example = Some 1
   \<and> contractsMap (reload live_example) = [] \<and> loading (reload live_example)
   \<and> streamRef (reload live_example) = Some 1
   \<and> closed (reload live_example) = []
   \<and> started (reload live_example) = [1]
   \<and> streamRequests (reload live_example) = 1
   \<and> cleanup live_example = Inr stopped_example
   \<and> closed (stream_effect stopped_example) = [1]
   \<and> streamRequests (stream_effect stopped_example) = 2
   \<and> streamRef (stream_effect stopped_example) = None
   \<and> after_triggerReload 1 live_example = Inr (reload (stream_effect stopped_example))
   \<and> reload live_example \<noteq> reload (stream_effect stopped_example)"
proof -
  have a: "streamRef (reload live_example) = Some 1"
    "streamRef (reload (stream_effect stopped_example)) = None"
    by (simp_all add: example_defs reload_def)
  then have "reload live_example \<noteq> reload (stream_effect stopped_example)"
    by auto
  then show ?thesis
    by (simp add: example_defs reload_def after_triggerReload_def reloadTrigger_effect_def)
qed

end
